theory Spec2Isabelle
  imports Main "HOL-Library.Word"
begin

unbundle bit_operations_syntax

section \<open>Bytes, errors and the big-endian helpers\<close>

type_synonym byte = "8 word"
type_synonym uint16 = "16 word"
type_synonym uint32 = "32 word"

text \<open>
  The three error values of the package: \<open>io.ErrUnexpectedEOF\<close> (the spec's
  TruncatedInput), \<open>ErrInvalidVLAN\<close> (InvalidVlanId) and \<open>ErrInvalidFCS\<close>
  (ChecksumMismatch).
\<close>

datatype error = ErrUnexpectedEOF | ErrInvalidVLAN | ErrInvalidFCS

text \<open>
  How a call of a decoding method ends: it returns \<open>nil\<close>, it returns an error, or a slice
  expression is out of range and the Go runtime panics.
\<close>

datatype ret = OK | Failed error | Panic

text \<open>\<open>binary.BigEndian.PutUint16\<close> and \<open>binary.BigEndian.Uint16\<close> on two bytes,
  \<open>binary.BigEndian.Uint32\<close> on four.\<close>

definition PutUint16 :: "uint16 \<Rightarrow> byte list" where
  "PutUint16 x = [ucast (drop_bit 8 x), ucast x]"

definition Uint16 :: "byte list \<Rightarrow> uint16" where
  "Uint16 b = ucast (b ! 1) OR push_bit 8 (ucast (b ! 0))"

definition Uint32 :: "byte list \<Rightarrow> uint32" where
  "Uint32 b = ucast (b ! 3) OR push_bit 8 (ucast (b ! 2))
                OR push_bit 16 (ucast (b ! 1)) OR push_bit 24 (ucast (b ! 0))"

text \<open>The slice expression \<open>b[lo:hi]\<close>, used only where \<open>lo \<le> hi \<le> len(b)\<close> has been
  checked.\<close>

definition subslice :: "'a list \<Rightarrow> nat \<Rightarrow> nat \<Rightarrow> 'a list" where
  "subslice b lo hi = take (hi - lo) (drop lo b)"

text \<open>\<open>copy(b[lo:hi], src)\<close>: the first \<open>min (hi - lo) (len src)\<close> bytes of \<open>src\<close> are
  written into \<open>b\<close> from offset \<open>lo\<close>; the rest of \<open>b\<close> is kept.\<close>

definition copy_at :: "byte list \<Rightarrow> nat \<Rightarrow> nat \<Rightarrow> byte list \<Rightarrow> byte list" where
  "copy_at b lo hi src =
     (let k = min (hi - lo) (length src) in take lo b @ take k src @ drop (lo + k) b)"

section \<open>VLAN tags (vlan.go)\<close>

definition VLANNone :: uint16 where "VLANNone = 0x000"
definition VLANMax :: uint16 where "VLANMax = 0xfff"

record VLAN =
  Priority :: "8 word"
  DropEligible :: bool
  ID :: uint16

text \<open>\<open>new(VLAN)\<close>: the zero value.\<close>

definition new_VLAN :: VLAN where
  "new_VLAN = \<lparr>Priority = 0, DropEligible = False, ID = 0\<rparr>"

text \<open>\<open>VLAN.MarshalBinary\<close> (vlan.go 49-72). The shift \<open>uint16(v.Priority) << 13\<close> is a
  16-bit shift: bits pushed past bit 15 are lost.\<close>

definition VLAN_MarshalBinary :: "VLAN \<Rightarrow> error + byte list" where
  "VLAN_MarshalBinary v =
     (if VLANMax \<le> ID v then Inl ErrInvalidVLAN
      else
        let ub = push_bit 13 (ucast (Priority v) :: uint16);
            drop = (if DropEligible v then 1 else 0 :: uint16);
            ub = ub OR push_bit 12 drop;
            ub = ub OR ID v
        in Inr (PutUint16 ub))"

text \<open>\<open>VLAN.UnmarshalBinary\<close> (vlan.go 80-100). The receiver is passed in and returned as
  the call leaves it: the three fields are assigned before the range check of the ID.\<close>

definition VLAN_UnmarshalBinary :: "VLAN \<Rightarrow> byte list \<Rightarrow> VLAN \<times> error option" where
  "VLAN_UnmarshalBinary v b =
     (if length b \<noteq> 2 then (v, Some ErrUnexpectedEOF)
      else
        let ub = Uint16 (subslice b 0 2);
            v = v\<lparr>Priority := ucast (drop_bit 13 ub)\<rparr>;
            v = v\<lparr>DropEligible := (ub AND 0x1000 \<noteq> 0)\<rparr>;
            v = v\<lparr>ID := ub AND 0x0fff\<rparr>
        in if VLANMax \<le> ID v then (v, Some ErrInvalidVLAN) else (v, None))"

text \<open>
  Modelled from the spec: \<open>VLAN.read\<close>, which \<open>Frame.MarshalBinary\<close> and \<open>Frame.read\<close> call
  on the two bytes \<open>b[n+2 : n+4]\<close>, is not among the sources. The spec's tag encoder (4.1)
  is the one of \<open>VLAN.MarshalBinary\<close>: an ID of 4095 or more is \<open>ErrInvalidVLAN\<close>, otherwise
  the packed 16-bit word is written big-endian into the two bytes.
\<close>

definition VLAN_read :: "VLAN \<Rightarrow> error + byte list" where
  "VLAN_read v = VLAN_MarshalBinary v"

section \<open>Frames (ethernet.go)\<close>

definition minPayload :: nat where "minPayload = 46"

definition EtherTypeVLAN :: uint16 where "EtherTypeVLAN = 0x8100"

text \<open>
  The struct \<open>Frame\<close>. The two addresses are \<open>net.HardwareAddr\<close>, a byte slice of any
  length (the first listing of ethernet.go calls the fields \<open>DestinationHardwareAddr\<close> and
  \<open>SourceHardwareAddr\<close>, the later ones \<open>Destination\<close> and \<open>Source\<close>). The slice
  \<open>[]*VLAN\<close> is modelled as the list of the tags pointed to.
\<close>

record Frame =
  Destination :: "byte list"
  Source :: "byte list"
  VLAN :: "VLAN list"
  EtherType :: uint16
  Payload :: "byte list"

subsection \<open>Encoding\<close>

text \<open>
  The loop \<open>for _, v := range f.VLAN\<close> of \<open>Frame.MarshalBinary\<close> (ethernet.go 92-102) and
  of \<open>Frame.read\<close> (298-308): the buffer and the offset \<open>n\<close> are threaded through; an
  error of \<open>v.read\<close> stops the loop and leaves the buffer as written so far.
\<close>

fun marshal_vlans :: "VLAN list \<Rightarrow> byte list \<Rightarrow> nat \<Rightarrow> byte list \<times> nat \<times> error option" where
  "marshal_vlans [] b n = (b, n, None)"
| "marshal_vlans (v # vs) b n =
     (let b = copy_at b n (n + 2) (PutUint16 EtherTypeVLAN)
      in case VLAN_read v of
           Inl err \<Rightarrow> (b, n, Some err)
         | Inr tb \<Rightarrow> marshal_vlans vs (copy_at b (n + 2) (n + 4) tb) (n + 4))"

text \<open>\<open>Frame.MarshalBinary\<close> as in ethernet.go 69-111 (and in the unnamed listing): the
  buffer is allocated zeroed and filled in place; on an error \<open>nil\<close> is returned.\<close>

definition Frame_MarshalBinary_r1 :: "Frame \<Rightarrow> byte list option \<times> error option" where
  "Frame_MarshalBinary_r1 f =
     (let pl = length (Payload f);
          pl = (if pl < minPayload then minPayload else pl);
          b = replicate (6 + 6 + (4 * length (VLAN f)) + 2 + pl) 0;
          b = copy_at b 0 6 (Destination f);
          b = copy_at b 6 12 (Source f)
      in case marshal_vlans (VLAN f) b 12 of
           (b, n, Some err) \<Rightarrow> (None, Some err)
         | (b, n, None) \<Rightarrow>
             let b = copy_at b n (n + 2) (PutUint16 (EtherType f));
                 b = copy_at b (n + 2) (length b) (Payload f)
             in (Some b, None))"

text \<open>\<open>Frame.length\<close> (ethernet.go 394-401).\<close>

definition Frame_length :: "Frame \<Rightarrow> nat" where
  "Frame_length f =
     (let pl = length (Payload f);
          pl = (if pl < minPayload then minPayload else pl)
      in 6 + 6 + (4 * length (VLAN f)) + 2 + pl)"

text \<open>\<open>Frame.read\<close> (ethernet.go 292-317), for a buffer of at least \<open>Frame.length\<close> bytes:
  the buffer as the call leaves it, the returned count and the returned error.\<close>

definition Frame_read :: "Frame \<Rightarrow> byte list \<Rightarrow> byte list \<times> nat \<times> error option" where
  "Frame_read f b =
     (let b = copy_at b 0 6 (Destination f);
          b = copy_at b 6 12 (Source f)
      in case marshal_vlans (VLAN f) b 12 of
           (b, n, Some err) \<Rightarrow> (b, 0, Some err)
         | (b, n, None) \<Rightarrow>
             let b = copy_at b n (n + 2) (PutUint16 (EtherType f));
                 b = copy_at b (n + 2) (length b) (Payload f)
             in (b, length b, None))"

text \<open>\<open>Frame.MarshalBinary\<close> as in ethernet.go 270-274: \<open>return b, err\<close> hands the
  allocated buffer back with whatever error \<open>read\<close> returned.\<close>

definition Frame_MarshalBinary_r2 :: "Frame \<Rightarrow> byte list option \<times> error option" where
  "Frame_MarshalBinary_r2 f =
     (let b = replicate (Frame_length f) 0
      in case Frame_read f b of (b, n, err) \<Rightarrow> (Some b, err))"

subsection \<open>Decoding\<close>

text \<open>
  The loop \<open>for ; et == EtherTypeVLAN; n += 4\<close> of \<open>Frame.UnmarshalBinary\<close>. The listings
  differ in one constant, the number of bytes that must remain after the cursor: 2 in
  ethernet.go 140-157, 4 in ethernet.go 338-355 and in the unnamed listing 140-157; it is
  the parameter \<open>need\<close>. The tags are appended to the receiver's slice \<open>f.VLAN\<close>, here
  \<open>vs\<close>. The capacity of the input slice is taken to be its length, so a slice expression
  that ends beyond \<open>len(b)\<close> panics.
\<close>

function vlan_loop ::
  "nat \<Rightarrow> byte list \<Rightarrow> VLAN list \<Rightarrow> uint16 \<Rightarrow> nat \<Rightarrow> (VLAN list \<times> uint16 \<times> nat) \<times> ret" where
  "vlan_loop need b vs et n =
     (if et \<noteq> EtherTypeVLAN then ((vs, et, n), OK)
      else if length b < n then ((vs, et, n), Panic)
      else if length (drop n b) < need then ((vs, et, n), Failed ErrUnexpectedEOF)
      else if length b < n + 2 then ((vs, et, n), Panic)
      else
        case VLAN_UnmarshalBinary new_VLAN (subslice b n (n + 2)) of
          (vlan, Some err) \<Rightarrow> ((vs, et, n), Failed err)
        | (vlan, None) \<Rightarrow>
            if length b < n + 4 then ((vs @ [vlan], et, n), Panic)
            else vlan_loop need b (vs @ [vlan]) (Uint16 (subslice b (n + 2) (n + 4))) (n + 4))"
  by pat_completeness auto
termination
  by (relation "measure (\<lambda>(need, b, vs, et, n). length b - n)") auto

text \<open>
  \<open>Frame.UnmarshalBinary\<close> as in ethernet.go 120-195, with the minimum payload check. The
  receiver is passed in and returned as the call leaves it. \<open>l\<close> and the comparison are
  on Go's signed \<open>int\<close>.
\<close>

definition Frame_UnmarshalBinary_r1 :: "Frame \<Rightarrow> byte list \<Rightarrow> Frame \<times> ret" where
  "Frame_UnmarshalBinary_r1 f b =
     (if length b < 14 then (f, Failed ErrUnexpectedEOF)
      else
        let f = f\<lparr>Destination := subslice b 0 6\<rparr>;
            f = f\<lparr>Source := subslice b 6 12\<rparr>
        in case vlan_loop 2 b (VLAN f) (Uint16 (subslice b 12 14)) 14 of
             ((vs, et, n), Panic) \<Rightarrow> (f\<lparr>VLAN := vs\<rparr>, Panic)
           | ((vs, et, n), Failed err) \<Rightarrow> (f\<lparr>VLAN := vs\<rparr>, Failed err)
           | ((vs, et, n), OK) \<Rightarrow>
               let f = f\<lparr>VLAN := vs\<rparr>;
                   f = f\<lparr>EtherType := et\<rparr>;
                   l = int minPayload - int (length (drop n b));
                   vl = int (length (VLAN f));
                   vl = (if vl > 1 then 1 else vl);
                   vl = (if vl = 0 \<and> l = 4 then vl + 1 else vl)
               in if int (length (drop n b)) < int minPayload - (vl * 4)
                  then (f, Failed ErrUnexpectedEOF)
                  else (f\<lparr>Payload := drop n b\<rparr>, OK))"

text \<open>
  \<open>Frame.UnmarshalBinary\<close> as in ethernet.go 326-374, without a minimum payload: the
  addresses and the payload are slices of one new buffer \<open>bb\<close>, assigned after the loop.
\<close>

definition Frame_UnmarshalBinary_r2 :: "Frame \<Rightarrow> byte list \<Rightarrow> Frame \<times> ret" where
  "Frame_UnmarshalBinary_r2 f b =
     (if length b < 14 then (f, Failed ErrUnexpectedEOF)
      else
        case vlan_loop 4 b (VLAN f) (Uint16 (subslice b 12 14)) 14 of
          ((vs, et, n), Panic) \<Rightarrow> (f\<lparr>VLAN := vs\<rparr>, Panic)
        | ((vs, et, n), Failed err) \<Rightarrow> (f\<lparr>VLAN := vs\<rparr>, Failed err)
        | ((vs, et, n), OK) \<Rightarrow>
            let f = f\<lparr>VLAN := vs\<rparr>;
                f = f\<lparr>EtherType := et\<rparr>;
                bb = replicate (6 + 6 + length (drop n b)) 0;
                bb = copy_at bb 0 6 (subslice b 0 6);
                f = f\<lparr>Destination := subslice bb 0 6\<rparr>;
                bb = copy_at bb 6 12 (subslice b 6 12);
                f = f\<lparr>Source := subslice bb 6 12\<rparr>;
                bb = copy_at bb 12 (length bb) (drop n b)
            in (f\<lparr>Payload := drop 12 bb\<rparr>, OK))"

text \<open>
  \<open>Frame.UnmarshalBinary\<close> as in the unnamed listing (120-169): the loop of ethernet.go
  338-355 and no minimum payload, with the addresses assigned before the loop as in
  ethernet.go 126-132.
\<close>

definition Frame_UnmarshalBinary_r3 :: "Frame \<Rightarrow> byte list \<Rightarrow> Frame \<times> ret" where
  "Frame_UnmarshalBinary_r3 f b =
     (if length b < 14 then (f, Failed ErrUnexpectedEOF)
      else
        let f = f\<lparr>Destination := subslice b 0 6\<rparr>;
            f = f\<lparr>Source := subslice b 6 12\<rparr>
        in case vlan_loop 4 b (VLAN f) (Uint16 (subslice b 12 14)) 14 of
             ((vs, et, n), Panic) \<Rightarrow> (f\<lparr>VLAN := vs\<rparr>, Panic)
           | ((vs, et, n), Failed err) \<Rightarrow> (f\<lparr>VLAN := vs\<rparr>, Failed err)
           | ((vs, et, n), OK) \<Rightarrow>
               let f = f\<lparr>VLAN := vs\<rparr>;
                   f = f\<lparr>EtherType := et\<rparr>
               in (f\<lparr>Payload := drop n b\<rparr>, OK))"

subsection \<open>The frame check sequence\<close>

text \<open>
  \<open>crc32.ChecksumIEEE\<close> of the Go standard library, bit by bit: the reflected polynomial
  \<open>0xedb88320\<close>, the register initialised to all ones and complemented at the end.
\<close>

definition crc_bit :: "uint32 \<Rightarrow> uint32" where
  "crc_bit c = (if bit c 0 then drop_bit 1 c XOR 0xedb88320 else drop_bit 1 c)"

definition crc_byte :: "byte \<Rightarrow> uint32 \<Rightarrow> uint32" where
  "crc_byte x c = (crc_bit ^^ 8) (c XOR ucast x)"

definition ChecksumIEEE :: "byte list \<Rightarrow> uint32" where
  "ChecksumIEEE bs = NOT (fold crc_byte bs 0xffffffff)"

text \<open>\<open>Frame.UnmarshalFCS\<close> (ethernet.go 379-392).\<close>

definition Frame_UnmarshalFCS :: "Frame \<Rightarrow> byte list \<Rightarrow> Frame \<times> ret" where
  "Frame_UnmarshalFCS f b =
     (if length b < 4 then (f, Failed ErrUnexpectedEOF)
      else
        let want = Uint32 (drop (length b - 4) b);
            got = ChecksumIEEE (subslice b 0 (length b - 4))
        in if want \<noteq> got then (f, Failed ErrInvalidFCS)
           else Frame_UnmarshalBinary_r2 f (subslice b 0 (length b - 4)))"

section \<open>The wire layout, for the proofs\<close>

text \<open>The packed 16-bit word of a tag, as \<open>VLAN.MarshalBinary\<close> builds it.\<close>

definition pack :: "VLAN \<Rightarrow> uint16" where
  "pack v = (push_bit 13 (ucast (Priority v)) OR push_bit 12 (if DropEligible v then 1 else 0))
              OR ID v"

text \<open>The four bytes of one tag on the wire, an address as six bytes (cut or filled with
  zeros), and the whole encoding of a frame whose tags are all valid.\<close>

definition tag_wire :: "VLAN \<Rightarrow> byte list" where
  "tag_wire v = PutUint16 EtherTypeVLAN @ PutUint16 (pack v)"

definition pad6 :: "byte list \<Rightarrow> byte list" where
  "pad6 a = take 6 a @ replicate (6 - length a) 0"

definition wire :: "Frame \<Rightarrow> byte list" where
  "wire f = pad6 (Destination f) @ pad6 (Source f) @ concat (map tag_wire (VLAN f))
            @ PutUint16 (EtherType f) @ Payload f @ replicate (46 - length (Payload f)) 0"

text \<open>The same chain seen from the decoder's cursor: the EtherType candidate that was just
  read, and the bytes that follow the cursor up to the payload.\<close>

fun cand :: "VLAN list \<Rightarrow> uint16 \<Rightarrow> uint16" where
  "cand [] et = et"
| "cand (v # vs) et = EtherTypeVLAN"

fun after_cursor :: "VLAN list \<Rightarrow> uint16 \<Rightarrow> byte list" where
  "after_cursor [] et = []"
| "after_cursor (v # vs) et = PutUint16 (pack v) @ PutUint16 (cand vs et) @ after_cursor vs et"

text \<open>The zero value of \<open>Frame\<close>.\<close>

definition new_Frame :: Frame where
  "new_Frame = \<lparr>Destination = [], Source = [], VLAN = [], EtherType = 0, Payload = []\<rparr>"

text \<open>Concrete frames and buffers on which the theorems below are evaluated.\<close>

definition B1 :: "byte list" where
  "B1 = [1,2,3,4,5,6, 7,8,9,10,11,12, 0x81,0x00, 0x20,0x02, 0x08,0x00] @ replicate 46 0"

definition stale :: Frame where
  "stale = \<lparr>Destination = [], Source = [],
             VLAN = [\<lparr>Priority = 0, DropEligible = False, ID = 9\<rparr>],
             EtherType = 0, Payload = []\<rparr>"

definition F1 :: Frame where
  "F1 = \<lparr>Destination = [1,2,3,4,5,6], Source = [7,8,9,10,11,12],
         VLAN = [\<lparr>Priority = 1, DropEligible = False, ID = 2\<rparr>], EtherType = 0x0800,
         Payload = [0xaa, 0xbb]\<rparr>"

definition F0 :: Frame where
  "F0 = \<lparr>Destination = [1,2,3,4,5,6], Source = [7,8,9,10,11,12],
         VLAN = [], EtherType = 0x8100, Payload = []\<rparr>"

section \<open>Words and the tag codec\<close>

lemma Uint16_PutUint16: "Uint16 (PutUint16 x) = x"
  unfolding Uint16_def PutUint16_def
  by (rule bit_word_eqI) (auto simp add: bit_simps)

lemma fff_mask: "(0xfff :: uint16) = mask 12"
  by (simp add: mask_eq_exp_minus_1)

lemma bit16_lt12: "bit (x::16 word) n \<Longrightarrow> x \<le> 0xffe \<Longrightarrow> n < 12"
proof (rule ccontr)
  assume b: "bit x n" and a: "x \<le> 0xffe" and n: "\<not> n < 12"
  have "x < 2 ^ 12" using a by (simp add: word_le_nat_alt word_less_nat_alt)
  hence "take_bit 12 x = x" by (simp add: less_mask_eq take_bit_eq_mask)
  hence "bit x n = bit (take_bit 12 x) n" by simp
  thus False using b n by (simp add: bit_take_bit_iff)
qed

lemma bit8_lt3: "bit (p::8 word) n \<Longrightarrow> p \<le> 7 \<Longrightarrow> n < 3"
proof (rule ccontr)
  assume b: "bit p n" and a: "p \<le> 7" and n: "\<not> n < 3"
  have "p < 2 ^ 3" using a by (simp add: word_le_nat_alt word_less_nat_alt)
  hence "take_bit 3 p = p" by (simp add: less_mask_eq take_bit_eq_mask)
  hence "bit p n = bit (take_bit 3 p) n" by simp
  thus False using b n by (simp add: bit_take_bit_iff)
qed

lemma VLAN_MarshalBinary_pack:
  "VLAN_MarshalBinary v = (if 0xfff \<le> ID v then Inl ErrInvalidVLAN else Inr (PutUint16 (pack v)))"
  by (simp add: VLAN_MarshalBinary_def pack_def VLANMax_def Let_def)

lemma le_ffe_iff: "((x::uint16) \<le> 0xffe) = (\<not> 0xfff \<le> x)"
  by (simp add: word_le_nat_alt) arith

lemma and_fff_le: "(w :: uint16) AND 0xfff \<le> 0xfff"
  by (rule word_and_le1)

lemma be16: "unat (Uint16 [b0, b1]) = 256 * unat b0 + unat b1"
proof -
  have d: "(ucast b1 :: uint16) OR push_bit 8 (ucast b0) = ucast b1 + push_bit 8 (ucast b0)"
    by (rule disjunctive_add [symmetric]) (auto simp add: bit_simps dest: bit_imp_le_length)
  have b0: "unat b0 < 256" using unsigned_less [of b0] by simp
  have b1: "unat b1 < 256" using unsigned_less [of b1] by simp
  have u0: "unat (ucast b0 :: uint16) = unat b0"
    using b0 by (simp add: unsigned_ucast_eq take_bit_nat_eq_self)
  have u1: "unat (ucast b1 :: uint16) = unat b1"
    using b1 by (simp add: unsigned_ucast_eq take_bit_nat_eq_self)
  have "unat (ucast b1 + push_bit 8 (ucast b0) :: uint16) = unat b1 + 256 * unat b0"
    using b0 b1 by (simp add: unat_word_ariths push_bit_eq_mult u0 u1)
  thus ?thesis by (simp add: Uint16_def d)
qed

lemma pack_prio: "ID v \<le> 0xffe \<Longrightarrow> Priority v \<le> 7 \<Longrightarrow> ucast (drop_bit 13 (pack v)) = Priority v"
  unfolding pack_def
  apply (rule bit_word_eqI)
  apply (auto simp add: bit_simps dest: bit16_lt12 bit8_lt3)
  done

lemma pack_id: "ID v \<le> 0xffe \<Longrightarrow> (pack v) AND 0xfff = ID v"
  unfolding pack_def fff_mask
  apply (rule bit_word_eqI)
  apply (auto simp add: bit_simps dest: bit16_lt12 bit8_lt3)
  done

lemma and_1000: "((w :: uint16) AND 0x1000 \<noteq> 0) = bit w 12"
proof -
  have m: "(0x1000 :: uint16) = 2 ^ 12" by simp
  show ?thesis unfolding m by (simp only: and_exp_eq_0_iff_not_bit not_not)
qed

lemma pack_drop: "ID v \<le> 0xffe \<Longrightarrow> ((pack v) AND 0x1000 \<noteq> 0) = DropEligible v"
  unfolding and_1000 pack_def by (auto simp add: bit_simps dest: bit16_lt12)

lemma VLAN_roundtrip:
  assumes "ID v \<le> 0xffe" "Priority v \<le> 7"
  shows "VLAN_MarshalBinary v = Inr (PutUint16 (pack v))"
    and "VLAN_UnmarshalBinary r (PutUint16 (pack v)) = (v, None)"
proof -
  show "VLAN_MarshalBinary v = Inr (PutUint16 (pack v))"
    using assms by (simp add: VLAN_MarshalBinary_pack le_ffe_iff)
  have s: "subslice (PutUint16 (pack v)) 0 2 = PutUint16 (pack v)"
    by (simp add: subslice_def PutUint16_def)
  show "VLAN_UnmarshalBinary r (PutUint16 (pack v)) = (v, None)"
    using assms
    by (simp add: VLAN_UnmarshalBinary_def s Uint16_PutUint16 pack_prio pack_id pack_drop
        VLANMax_def le_ffe_iff [symmetric] Let_def)
       (simp add: PutUint16_def)
qed

lemma pack_prio_gen: "ID v \<le> 0xffe \<Longrightarrow> drop_bit 13 (pack v) = ucast (take_bit 3 (Priority v))"
  unfolding pack_def
  apply (rule bit_word_eqI)
  apply (auto simp add: bit_simps dest: bit16_lt12 bit_imp_le_length)
  done

lemma pack_id_tb: "ID v \<le> 0xffe \<Longrightarrow> take_bit 12 (pack v) = ID v"
  using pack_id [of v] by (simp add: fff_mask take_bit_eq_mask)

lemma pack_bit12: "ID v \<le> 0xffe \<Longrightarrow> bit (pack v) 12 = DropEligible v"
  using pack_drop [of v] by (simp add: and_1000)

lemma take_bit3_le7: "(p :: 8 word) \<le> 7 \<Longrightarrow> take_bit 3 p = p"
proof -
  assume "p \<le> 7"
  hence "p < 2 ^ 3" by (simp add: word_le_nat_alt word_less_nat_alt)
  thus ?thesis by (simp add: less_mask_eq take_bit_eq_mask)
qed

lemma ucast_drop_take: "(ucast (ucast (take_bit 3 (p :: 8 word)) :: uint16) :: 8 word) = take_bit 3 p"
  by (rule bit_word_eqI) (auto simp add: bit_simps)

lemma VLAN_decode_fields:
  "length b = 2 \<Longrightarrow>
   fst (VLAN_UnmarshalBinary r b) =
     \<lparr>Priority = ucast (drop_bit 13 (Uint16 b)), DropEligible = bit (Uint16 b) 12,
      ID = take_bit 12 (Uint16 b)\<rparr>"
  by (cases r) (simp add: VLAN_UnmarshalBinary_def subslice_def Let_def and_1000 fff_mask take_bit_eq_mask)

section \<open>The encoder writes the wire layout\<close>

lemma length_PutUint16 [simp]: "length (PutUint16 x) = 2"
  by (simp add: PutUint16_def)

lemma length_tag_wire [simp]: "length (tag_wire v) = 4"
  by (simp add: tag_wire_def)

lemma length_pad6 [simp]: "length (pad6 a) = 6"
  by (simp add: pad6_def)

lemma length_concat_tag_wire [simp]: "length (concat (map tag_wire vs)) = 4 * length vs"
  by (induction vs) simp_all

lemma copy_at_fits:
  "length pre = lo \<Longrightarrow> length src \<le> hi - lo \<Longrightarrow> length src \<le> length rest \<Longrightarrow>
   copy_at (pre @ rest) lo hi src = pre @ src @ drop (length src) rest"
  by (simp add: copy_at_def min_def Let_def)

lemma copy_at_zeros:
  "length pre = lo \<Longrightarrow> hi - lo \<le> m \<Longrightarrow>
   copy_at (pre @ replicate m 0) lo hi src =
     pre @ take (hi - lo) src @ replicate (hi - lo - length src) 0 @ replicate (m - (hi - lo)) 0"
  by (simp add: copy_at_def min_def Let_def replicate_add [symmetric] del: replicate_add)

lemma length_copy_at [simp]: "hi \<le> length b \<Longrightarrow> length (copy_at b lo hi src) = length b"
  by (simp add: copy_at_def min_def Let_def)

lemma VLAN_read_ok: "ID v \<le> 0xffe \<Longrightarrow> VLAN_read v = Inr (PutUint16 (pack v))"
  by (simp add: VLAN_read_def VLAN_MarshalBinary_pack le_ffe_iff)

lemma VLAN_read_bad: "\<not> ID v \<le> 0xffe \<Longrightarrow> VLAN_read v = Inl ErrInvalidVLAN"
  by (simp add: VLAN_read_def VLAN_MarshalBinary_pack le_ffe_iff)

lemma marshal_vlans_ok:
  "\<forall>v \<in> set vs. ID v \<le> 0xffe \<Longrightarrow> length pre = n \<Longrightarrow> 4 * length vs \<le> length rest \<Longrightarrow>
   marshal_vlans vs (pre @ rest) n =
     (pre @ concat (map tag_wire vs) @ drop (4 * length vs) rest, n + 4 * length vs, None)"
proof (induction vs arbitrary: pre rest n)
  case Nil
  then show ?case by simp
next
  case (Cons v vs)
  have id: "ID v \<le> 0xffe" using Cons.prems(1) by simp
  have len: "4 \<le> length rest" using Cons.prems(3) by simp
  have c1: "copy_at (pre @ rest) n (n + 2) (PutUint16 EtherTypeVLAN)
              = (pre @ PutUint16 EtherTypeVLAN) @ drop 2 rest"
    using Cons.prems(2) len by (simp add: copy_at_fits)
  have c2: "copy_at ((pre @ PutUint16 EtherTypeVLAN) @ drop 2 rest) (n + 2) (n + 4) (PutUint16 (pack v))
              = (pre @ tag_wire v) @ drop 4 rest"
    using Cons.prems(2) len by (subst copy_at_fits) (simp_all add: tag_wire_def)
  have ih: "marshal_vlans vs ((pre @ tag_wire v) @ drop 4 rest) (n + 4) =
     ((pre @ tag_wire v) @ concat (map tag_wire vs) @ drop (4 * length vs) (drop 4 rest),
      (n + 4) + 4 * length vs, None)"
    using Cons.prems by (intro Cons.IH) simp_all
  have step: "marshal_vlans (v # vs) (pre @ rest) n
          = marshal_vlans vs ((pre @ tag_wire v) @ drop 4 rest) (n + 4)"
    by (simp only: marshal_vlans.simps Let_def c1 c2 VLAN_read_ok [OF id] sum.case)
  show ?case by (simp only: step ih) (simp add: add.commute)
qed

lemma marshal_vlans_err:
  "\<exists>v \<in> set vs. \<not> ID v \<le> 0xffe \<Longrightarrow>
   \<exists>b' n'. marshal_vlans vs b n = (b', n', Some ErrInvalidVLAN)"
proof (induction vs arbitrary: b n)
  case Nil
  then show ?case by simp
next
  case (Cons v vs)
  show ?case
  proof (cases "ID v \<le> 0xffe")
    case True
    hence "\<exists>v \<in> set vs. \<not> ID v \<le> 0xffe" using Cons.prems by auto
    from Cons.IH [OF this] show ?thesis by (simp add: VLAN_read_ok [OF True])
  next
    case False
    then show ?thesis by (simp add: VLAN_read_bad)
  qed
qed

lemma Frame_length_wire: "Frame_length f = length (wire f)"
  by (simp add: Frame_length_def wire_def minPayload_def Let_def)

lemma Frame_read_ok:
  assumes ok: "\<forall>v \<in> set (VLAN f). ID v \<le> 0xffe"
  shows "Frame_read f (replicate (Frame_length f) 0) = (wire f, length (wire f), None)"
proof -
  define k where "k = length (VLAN f)"
  define pl where "pl = max (length (Payload f)) 46"
  define m2 where "m2 = 2 + pl"
  define m3 where "m3 = 4 * k + m2"
  define m4 where "m4 = 6 + m3"
  define D where "D = pad6 (Destination f)"
  define S where "S = pad6 (Source f)"
  define T where "T = concat (map tag_wire (VLAN f))"
  define E where "E = PutUint16 (EtherType f)"
  have lens: "length D = 6" "length S = 6" "length T = 4 * k" "length E = 2"
    by (simp_all add: D_def S_def T_def E_def k_def)
  have L: "Frame_length f = 6 + m4"
    by (simp add: Frame_length_def minPayload_def Let_def max_def m4_def m3_def m2_def pl_def k_def)
  have s1: "copy_at (replicate (6 + m4) 0) 0 6 (Destination f) = D @ replicate m4 0"
    using copy_at_zeros [of "[]" 0 6 "6 + m4" "Destination f"]
    by (simp add: pad6_def D_def)
  have s2: "copy_at (D @ replicate m4 0) 6 12 (Source f) = (D @ S) @ replicate m3 0"
    using copy_at_zeros [of D 6 12 m4 "Source f"] lens
    by (simp add: pad6_def S_def m4_def)
  have s3: "marshal_vlans (VLAN f) ((D @ S) @ replicate m3 0) 12
              = ((D @ S @ T) @ replicate m2 0, 12 + 4 * k, None)"
    using marshal_vlans_ok [OF ok, of "D @ S" 12 "replicate m3 0"] lens
    by (simp add: m3_def T_def k_def)
  have s4: "copy_at ((D @ S @ T) @ replicate m2 0) (12 + 4 * k) (12 + 4 * k + 2) E
              = (D @ S @ T @ E) @ replicate pl 0"
    using copy_at_fits [of "D @ S @ T" "12 + 4 * k" E "12 + 4 * k + 2" "replicate m2 0"] lens
    by (simp add: m2_def)
  have s5: "copy_at ((D @ S @ T @ E) @ replicate pl 0) (12 + 4 * k + 2)
               (length ((D @ S @ T @ E) @ replicate pl 0)) (Payload f)
              = wire f"
    using copy_at_zeros [of "D @ S @ T @ E" "12 + 4 * k + 2"
             "length ((D @ S @ T @ E) @ replicate pl 0)" pl "Payload f"] lens
    by (simp add: pl_def max_def wire_def D_def S_def T_def E_def)
  show ?thesis
    by (simp only: Frame_read_def Let_def L s1 s2 s3 s4 s5 prod.case option.case
        E_def [symmetric])
qed



section \<open>The loop over the tag chain\<close>

declare vlan_loop.simps [simp del]

lemma length_after_cursor [simp]: "length (after_cursor vs et) = 4 * length vs"
  by (induction vs) simp_all

lemma chain_split:
  "concat (map tag_wire vs) @ PutUint16 et = PutUint16 (cand vs et) @ after_cursor vs et"
  by (induction vs) (simp_all add: tag_wire_def)

lemma subslice_mid:
  "length pre = lo \<Longrightarrow> hi = lo + length x \<Longrightarrow> subslice (pre @ x @ rest) lo hi = x"
  by (simp add: subslice_def)

lemma vlan_loop_chain:
  assumes "\<forall>v \<in> set vs. ID v \<le> 0xffe \<and> Priority v \<le> 7" "et \<noteq> EtherTypeVLAN"
    "need \<le> 4" "length pre = n"
  shows "vlan_loop need (pre @ after_cursor vs et @ rest) acc (cand vs et) n
           = ((acc @ vs, et, n + 4 * length vs), OK)"
  using assms
proof (induction vs arbitrary: pre acc n)
  case Nil
  then show ?case by (simp add: vlan_loop.simps)
next
  case (Cons v vs)
  define b where "b = pre @ after_cursor (v # vs) et @ rest"
  have v: "ID v \<le> 0xffe" "Priority v \<le> 7" using Cons.prems(1) by simp_all
  have l: "\<not> length b < n" "\<not> length (drop n b) < need" "\<not> length b < n + 2"
    "\<not> length b < n + 4"
    using Cons.prems(3,4) by (simp_all add: b_def)
  have t: "subslice b n (n + 2) = PutUint16 (pack v)"
    using Cons.prems(4) by (simp add: subslice_def b_def)
  have c: "subslice b (n + 2) (n + 4) = PutUint16 (cand vs et)"
    using Cons.prems(4) subslice_mid [of "pre @ PutUint16 (pack v)" "n + 2" "n + 4" "PutUint16 (cand vs et)" "after_cursor vs et @ rest"]
    by (simp add: b_def)
  have b2: "b = (pre @ PutUint16 (pack v) @ PutUint16 (cand vs et)) @ after_cursor vs et @ rest"
    by (simp add: b_def)
  have ih: "vlan_loop need b (acc @ [v]) (cand vs et) (n + 4)
              = (((acc @ [v]) @ vs, et, (n + 4) + 4 * length vs), OK)"
    unfolding b2 using Cons.prems by (intro Cons.IH) simp_all
  have "vlan_loop need b acc (cand (v # vs) et) n
          = vlan_loop need b (acc @ [v]) (cand vs et) (n + 4)"
    by (subst vlan_loop.simps)
      (simp only: l t c VLAN_roundtrip(2) [OF v] Uint16_PutUint16 cand.simps
         not_not refl if_False if_True prod.case option.case not_True_eq_False)
  also note ih
  finally show ?case by (simp add: add.commute b_def)
qed

lemma vlan_loop_append_gen:
  "vlan_loop need b (ws @ vs) et n =
     (case vlan_loop need b vs et n of ((ts, e, m), r) \<Rightarrow> ((ws @ ts, e, m), r))"
proof (induction need b vs et n arbitrary: ws rule: vlan_loop.induct)
  case (1 need b vs et n)
  define n4 where "n4 = n + 4"
  define n2 where "n2 = n + 2"
  define tb where "tb = subslice b n n2"
  define e2 where "e2 = Uint16 (subslice b n2 n4)"
  obtain vlan err where u: "VLAN_UnmarshalBinary new_VLAN tb = (vlan, err)"
    by (cases "VLAN_UnmarshalBinary new_VLAN tb") auto
  note unf = vlan_loop.simps [of need b "ws @ vs" et n] vlan_loop.simps [of need b vs et n]
  note fold = n4_def [symmetric] n2_def [symmetric] tb_def [symmetric] e2_def [symmetric]
  show ?case
  proof (cases "et = EtherTypeVLAN \<and> \<not> length b < n \<and> \<not> length (drop n b) < need
                 \<and> \<not> length b < n2 \<and> err = None \<and> \<not> length b < n4")
    case True
    hence ih: "vlan_loop need b (ws @ vs @ [vlan]) e2 n4 =
      (case vlan_loop need b (vs @ [vlan]) e2 n4 of
         ((ts, e, m), r) \<Rightarrow> ((ws @ ts, e, m), r))"
      unfolding e2_def n4_def n2_def using u [unfolded tb_def n2_def] by (intro "1.IH") auto
    show ?thesis
      unfolding unf fold using True ih by (simp add: u)
  next
    case False
    thus ?thesis
      unfolding unf fold by (auto simp add: u split: option.splits)
  qed
qed

lemma vlan_loop_append:
  "vlan_loop need b vs et n =
     (case vlan_loop need b [] et n of ((ts, e, m), r) \<Rightarrow> ((vs @ ts, e, m), r))"
  using vlan_loop_append_gen [of need b vs "[]" et n] by simp

lemma vlan_loop_no_panic:
  "n \<le> length b \<Longrightarrow> snd (vlan_loop 4 b vs et n) \<noteq> Panic"
proof (induction "4::nat" b vs et n rule: vlan_loop.induct)
  case (1 b vs et n)
  show ?case
    apply (subst vlan_loop.simps)
    using 1
    apply (auto split: prod.splits option.splits)
    done
qed

lemma vlan_loop_cursor:
  "n \<le> length b \<Longrightarrow> vlan_loop need b vs et n = ((vs', et', n'), OK) \<Longrightarrow>
   n' \<le> length b \<and> et' \<noteq> EtherTypeVLAN"
proof (induction need b vs et n rule: vlan_loop.induct)
  case (1 need b vs et n)
  show ?case
    using "1.prems"(2)
    apply (subst (asm) vlan_loop.simps)
    using "1.IH" "1.prems"(1)
    apply (auto split: prod.splits option.splits if_splits)
    done
qed



section \<open>The claims about the tag codec\<close>

text \<open>
  C5. \<open>VLAN.MarshalBinary\<close> fails with \<open>ErrInvalidVLAN\<close> for every tag whose ID is 4095,
  and succeeds (with two bytes) for every tag whose ID is at most 4094.
  \<open>VLAN.UnmarshalBinary\<close>, given two bytes, fails with \<open>ErrInvalidVLAN\<close> when the twelve
  low bits of the big-endian word are all ones, and succeeds when they are at most 4094.
\<close>
theorem VLAN_ID_range:
  "(ID v = 0xfff \<longrightarrow> VLAN_MarshalBinary v = Inl ErrInvalidVLAN) \<and>
   (ID v \<le> 0xffe \<longrightarrow> (\<exists>b. VLAN_MarshalBinary v = Inr b \<and> length b = 2)) \<and>
   (length b = 2 \<and> Uint16 b AND 0xfff = 0xfff \<longrightarrow>
      snd (VLAN_UnmarshalBinary r b) = Some ErrInvalidVLAN) \<and>
   (length b = 2 \<and> Uint16 b AND 0xfff \<le> 0xffe \<longrightarrow>
      snd (VLAN_UnmarshalBinary r b) = None)"
proof (intro conjI impI)
  assume "ID v = 0xfff"
  thus "VLAN_MarshalBinary v = Inl ErrInvalidVLAN" by (simp add: VLAN_MarshalBinary_pack)
next
  assume "ID v \<le> 0xffe"
  thus "\<exists>b. VLAN_MarshalBinary v = Inr b \<and> length b = 2"
    by (simp add: VLAN_MarshalBinary_pack le_ffe_iff PutUint16_def)
next
  assume a: "length b = 2 \<and> Uint16 b AND 0xfff = 0xfff"
  hence s: "subslice b 0 2 = b" by (simp add: subslice_def)
  show "snd (VLAN_UnmarshalBinary r b) = Some ErrInvalidVLAN"
    using a by (simp add: VLAN_UnmarshalBinary_def s VLANMax_def Let_def)
next
  assume a: "length b = 2 \<and> Uint16 b AND 0xfff \<le> 0xffe"
  hence s: "subslice b 0 2 = b" by (simp add: subslice_def)
  show "snd (VLAN_UnmarshalBinary r b) = None"
    using a by (simp add: VLAN_UnmarshalBinary_def s VLANMax_def Let_def le_ffe_iff)
qed

theorem VLAN_ID_range_witness:
  "VLAN_MarshalBinary \<lparr>Priority = 3, DropEligible = True, ID = 0xfff\<rparr> = Inl ErrInvalidVLAN \<and>
   VLAN_MarshalBinary \<lparr>Priority = 3, DropEligible = True, ID = 0xffe\<rparr> = Inr [0x7f, 0xfe] \<and>
   snd (VLAN_UnmarshalBinary new_VLAN [0x7f, 0xff]) = Some ErrInvalidVLAN \<and>
   snd (VLAN_UnmarshalBinary new_VLAN [0x7f, 0xfe]) = None"
  using VLAN_ID_range [of "\<lparr>Priority = 3, DropEligible = True, ID = 0xfff\<rparr>" "[0x7f, 0xff]" new_VLAN]
        VLAN_ID_range [of "\<lparr>Priority = 3, DropEligible = True, ID = 0xffe\<rparr>" "[0x7f, 0xfe]" new_VLAN]
  by (simp add: Uint16_def VLAN_MarshalBinary_def VLANMax_def PutUint16_def)



text \<open>
  C6, amended. For every tag with ID in [0, 4094], \<open>VLAN.MarshalBinary\<close> produces exactly
  two bytes forming a big-endian 16-bit word whose bits 15-13 are the three low bits of
  the priority (the priority itself when it is at most 7), whose bit 12 is the
  drop-eligible flag and whose bits 11-0 are the ID; \<open>VLAN.UnmarshalBinary\<close> reads the
  fields back from that layout.
\<close>

theorem VLAN_wire_layout:
  assumes "ID v \<le> 0xffe"
  shows "\<exists>b0 b1 w. VLAN_MarshalBinary v = Inr [b0, b1]
           \<and> unat (w :: uint16) = 256 * unat b0 + unat b1
           \<and> drop_bit 13 w = ucast (take_bit 3 (Priority v))
           \<and> (Priority v \<le> 7 \<longrightarrow> drop_bit 13 w = ucast (Priority v))
           \<and> bit w 12 = DropEligible v
           \<and> take_bit 12 w = ID v
           \<and> VLAN_UnmarshalBinary r [b0, b1] = (v\<lparr>Priority := take_bit 3 (Priority v)\<rparr>, None)"
proof -
  let ?w = "pack v"
  have m: "VLAN_MarshalBinary v = Inr [ucast (drop_bit 8 ?w), ucast ?w]"
    using assms by (simp add: VLAN_MarshalBinary_pack le_ffe_iff PutUint16_def)
  have u: "Uint16 [ucast (drop_bit 8 ?w), ucast ?w] = ?w"
    using Uint16_PutUint16 [of ?w] by (simp add: PutUint16_def)
  have be: "unat ?w = 256 * unat (ucast (drop_bit 8 ?w) :: byte) + unat (ucast ?w :: byte)"
    using be16 [of "ucast (drop_bit 8 ?w)" "ucast ?w"] by (simp add: u)
  have f: "fst (VLAN_UnmarshalBinary r [ucast (drop_bit 8 ?w), ucast ?w])
             = v\<lparr>Priority := take_bit 3 (Priority v)\<rparr>"
    using assms
    by (simp add: VLAN_decode_fields u pack_prio_gen pack_id_tb pack_bit12 ucast_drop_take)
  have s: "snd (VLAN_UnmarshalBinary r [ucast (drop_bit 8 ?w), ucast ?w]) = None"
    using assms
    by (simp add: VLAN_UnmarshalBinary_def subslice_def u Let_def VLANMax_def pack_id
        le_ffe_iff [symmetric])
  have d: "VLAN_UnmarshalBinary r [ucast (drop_bit 8 ?w), ucast ?w]
             = (v\<lparr>Priority := take_bit 3 (Priority v)\<rparr>, None)"
    using f s by (simp add: prod_eq_iff)
  show ?thesis
    using assms m be d
    by (intro exI [of _ "ucast (drop_bit 8 ?w)"] exI [of _ "ucast ?w"] exI [of _ ?w])
       (simp add: pack_prio_gen pack_id_tb pack_bit12 take_bit3_le7)
qed

theorem VLAN_wire_layout_witness:
  "\<exists>b0 b1 w. VLAN_MarshalBinary \<lparr>Priority = 5, DropEligible = True, ID = 0x123\<rparr> = Inr [b0, b1]
           \<and> unat (w :: uint16) = 256 * unat b0 + unat b1
           \<and> drop_bit 13 w = 5 \<and> bit w 12 \<and> take_bit 12 w = 0x123
           \<and> VLAN_UnmarshalBinary new_VLAN [b0, b1]
                = (\<lparr>Priority = 5, DropEligible = True, ID = 0x123\<rparr>, None)"
  using VLAN_wire_layout [of "\<lparr>Priority = 5, DropEligible = True, ID = 0x123\<rparr>" new_VLAN]
  by (simp add: take_bit3_le7)

text \<open>
  C6 as stated fails for a priority above 7: the 16-bit shift drops the fourth bit, so
  priority 8 is encoded with bits 15-13 all zero.
\<close>

theorem VLAN_priority_8_counterexample:
  "VLAN_MarshalBinary \<lparr>Priority = 8, DropEligible = False, ID = 0\<rparr> = Inr [0, 0]
   \<and> drop_bit 13 (Uint16 [0, 0]) \<noteq> (ucast (8 :: 8 word) :: uint16)"
  by (simp add: VLAN_MarshalBinary_def VLANMax_def PutUint16_def Uint16_def)

section \<open>The claims about the encoder\<close>

lemma marshal_vlans_cases:
  "(\<forall>v \<in> set vs. ID v \<le> 0xffe) \<or> (\<exists>b' n'. marshal_vlans vs b n = (b', n', Some ErrInvalidVLAN))"
  using marshal_vlans_err [of vs b n] by blast

lemma Frame_MarshalBinary_r1_read:
  "Frame_MarshalBinary_r1 f =
     (case Frame_read f (replicate (Frame_length f) 0) of
        (b, n, None) \<Rightarrow> (Some b, None) | (b, n, Some err) \<Rightarrow> (None, Some err))"
  by (simp add: Frame_MarshalBinary_r1_def Frame_read_def Frame_length_def Let_def
      split: prod.splits option.splits)

lemma Frame_read_bad:
  "\<not> (\<forall>v \<in> set (VLAN f). ID v \<le> 0xffe) \<Longrightarrow>
   \<exists>b'. Frame_read f b = (b', 0, Some ErrInvalidVLAN)"
proof -
  assume a: "\<not> (\<forall>v \<in> set (VLAN f). ID v \<le> 0xffe)"
  obtain b' n' where
    "marshal_vlans (VLAN f) (copy_at (copy_at b 0 6 (Destination f)) 6 12 (Source f)) 12
       = (b', n', Some ErrInvalidVLAN)"
    using a marshal_vlans_cases [of "VLAN f"] by blast
  thus ?thesis by (simp add: Frame_read_def Let_def)
qed

lemma Frame_MarshalBinary_r1_ok:
  "\<forall>v \<in> set (VLAN f). ID v \<le> 0xffe \<Longrightarrow> Frame_MarshalBinary_r1 f = (Some (wire f), None)"
  by (simp add: Frame_MarshalBinary_r1_read Frame_read_ok)

lemma Frame_MarshalBinary_r2_ok:
  "\<forall>v \<in> set (VLAN f). ID v \<le> 0xffe \<Longrightarrow> Frame_MarshalBinary_r2 f = (Some (wire f), None)"
  by (simp add: Frame_MarshalBinary_r2_def Frame_read_ok)

lemma Frame_MarshalBinary_r1_bad:
  "\<not> (\<forall>v \<in> set (VLAN f). ID v \<le> 0xffe) \<Longrightarrow>
   Frame_MarshalBinary_r1 f = (None, Some ErrInvalidVLAN)"
  using Frame_read_bad [of f "replicate (Frame_length f) 0"]
  by (auto simp add: Frame_MarshalBinary_r1_read)

lemma Frame_MarshalBinary_r2_bad:
  "\<not> (\<forall>v \<in> set (VLAN f). ID v \<le> 0xffe) \<Longrightarrow>
   \<exists>b. Frame_MarshalBinary_r2 f = (Some b, Some ErrInvalidVLAN)"
  using Frame_read_bad [of f "replicate (Frame_length f) 0"]
  by (auto simp add: Frame_MarshalBinary_r2_def)

lemma marshal_no_error:
  "snd (Frame_MarshalBinary_r1 f) = None \<Longrightarrow> Frame_MarshalBinary_r1 f = (Some (wire f), None)"
  "snd (Frame_MarshalBinary_r2 f) = None \<Longrightarrow> Frame_MarshalBinary_r2 f = (Some (wire f), None)"
proof -
  assume "snd (Frame_MarshalBinary_r1 f) = None"
  hence "\<forall>v \<in> set (VLAN f). ID v \<le> 0xffe"
    using Frame_MarshalBinary_r1_bad [of f] by (cases "\<forall>v \<in> set (VLAN f). ID v \<le> 0xffe") auto
  thus "Frame_MarshalBinary_r1 f = (Some (wire f), None)" by (rule Frame_MarshalBinary_r1_ok)
next
  assume "snd (Frame_MarshalBinary_r2 f) = None"
  hence "\<forall>v \<in> set (VLAN f). ID v \<le> 0xffe"
    using Frame_MarshalBinary_r2_bad [of f] by (cases "\<forall>v \<in> set (VLAN f). ID v \<le> 0xffe") auto
  thus "Frame_MarshalBinary_r2 f = (Some (wire f), None)" by (rule Frame_MarshalBinary_r2_ok)
qed

lemma wire_layout:
  "length (wire f) = 12 + 4 * length (VLAN f) + 2 + max (length (Payload f)) 46"
  "subslice (wire f) (12 + 4 * length (VLAN f)) (12 + 4 * length (VLAN f) + 2)
     = PutUint16 (EtherType f)"
  "subslice (wire f) (12 + 4 * length (VLAN f) + 2)
     (12 + 4 * length (VLAN f) + 2 + length (Payload f)) = Payload f"
  "drop (12 + 4 * length (VLAN f) + 2 + length (Payload f)) (wire f)
     = replicate (46 - length (Payload f)) 0"
proof -
  define pre where "pre = pad6 (Destination f) @ pad6 (Source f) @ concat (map tag_wire (VLAN f))"
  have lp: "length pre = 12 + 4 * length (VLAN f)" by (simp add: pre_def)
  have w: "wire f = pre @ PutUint16 (EtherType f) @ Payload f @ replicate (46 - length (Payload f)) 0"
    by (simp add: wire_def pre_def)
  have w2: "wire f = (pre @ PutUint16 (EtherType f)) @ Payload f @ replicate (46 - length (Payload f)) 0"
    by (simp add: w)
  show "length (wire f) = 12 + 4 * length (VLAN f) + 2 + max (length (Payload f)) 46"
    by (simp add: w lp max_def)
  show "subslice (wire f) (12 + 4 * length (VLAN f)) (12 + 4 * length (VLAN f) + 2)
             = PutUint16 (EtherType f)"
    unfolding w by (rule subslice_mid) (simp_all add: lp)
  show "subslice (wire f) (12 + 4 * length (VLAN f) + 2)
             (12 + 4 * length (VLAN f) + 2 + length (Payload f)) = Payload f"
    unfolding w2 by (rule subslice_mid) (simp_all add: lp)
  show "drop (12 + 4 * length (VLAN f) + 2 + length (Payload f)) (wire f)
             = replicate (46 - length (Payload f)) 0"
    unfolding w by (simp add: lp)
qed

text \<open>
  C7. For every frame that \<open>Frame.MarshalBinary\<close> encodes without an error, in either
  listing (ethernet.go 69-111, and 270-274 with \<open>read\<close> and \<open>length\<close>), a buffer is
  returned, it has exactly 12 + 4 * (number of tags) + 2 + max (payload length) 46 bytes,
  the terminal EtherType is followed at once by the unmodified payload, and when the
  payload is shorter than 46 bytes every byte after it is zero.
\<close>

theorem MarshalBinary_length_and_padding:
  "(snd (Frame_MarshalBinary_r1 f) = None \<longrightarrow>
      (\<exists>b. fst (Frame_MarshalBinary_r1 f) = Some b
         \<and> length b = 12 + 4 * length (VLAN f) + 2 + max (length (Payload f)) 46
         \<and> subslice b (12 + 4 * length (VLAN f)) (12 + 4 * length (VLAN f) + 2)
             = PutUint16 (EtherType f)
         \<and> subslice b (12 + 4 * length (VLAN f) + 2)
             (12 + 4 * length (VLAN f) + 2 + length (Payload f)) = Payload f
         \<and> (length (Payload f) < 46 \<longrightarrow>
              drop (12 + 4 * length (VLAN f) + 2 + length (Payload f)) b
                = replicate (46 - length (Payload f)) 0)))
   \<and> (snd (Frame_MarshalBinary_r2 f) = None \<longrightarrow>
      (\<exists>b. fst (Frame_MarshalBinary_r2 f) = Some b
         \<and> length b = 12 + 4 * length (VLAN f) + 2 + max (length (Payload f)) 46
         \<and> subslice b (12 + 4 * length (VLAN f)) (12 + 4 * length (VLAN f) + 2)
             = PutUint16 (EtherType f)
         \<and> subslice b (12 + 4 * length (VLAN f) + 2)
             (12 + 4 * length (VLAN f) + 2 + length (Payload f)) = Payload f
         \<and> (length (Payload f) < 46 \<longrightarrow>
              drop (12 + 4 * length (VLAN f) + 2 + length (Payload f)) b
                = replicate (46 - length (Payload f)) 0)))"
proof (intro conjI impI)
  assume "snd (Frame_MarshalBinary_r1 f) = None"
  hence "fst (Frame_MarshalBinary_r1 f) = Some (wire f)" by (simp add: marshal_no_error(1))
  thus "\<exists>b. fst (Frame_MarshalBinary_r1 f) = Some b
         \<and> length b = 12 + 4 * length (VLAN f) + 2 + max (length (Payload f)) 46
         \<and> subslice b (12 + 4 * length (VLAN f)) (12 + 4 * length (VLAN f) + 2)
             = PutUint16 (EtherType f)
         \<and> subslice b (12 + 4 * length (VLAN f) + 2)
             (12 + 4 * length (VLAN f) + 2 + length (Payload f)) = Payload f
         \<and> (length (Payload f) < 46 \<longrightarrow>
              drop (12 + 4 * length (VLAN f) + 2 + length (Payload f)) b
                = replicate (46 - length (Payload f)) 0)"
    using wire_layout [of f] by blast
next
  assume "snd (Frame_MarshalBinary_r2 f) = None"
  hence "fst (Frame_MarshalBinary_r2 f) = Some (wire f)" by (simp add: marshal_no_error(2))
  thus "\<exists>b. fst (Frame_MarshalBinary_r2 f) = Some b
         \<and> length b = 12 + 4 * length (VLAN f) + 2 + max (length (Payload f)) 46
         \<and> subslice b (12 + 4 * length (VLAN f)) (12 + 4 * length (VLAN f) + 2)
             = PutUint16 (EtherType f)
         \<and> subslice b (12 + 4 * length (VLAN f) + 2)
             (12 + 4 * length (VLAN f) + 2 + length (Payload f)) = Payload f
         \<and> (length (Payload f) < 46 \<longrightarrow>
              drop (12 + 4 * length (VLAN f) + 2 + length (Payload f)) b
                = replicate (46 - length (Payload f)) 0)"
    using wire_layout [of f] by blast
qed

text \<open>
  Both listings evaluated on a frame with one tag and a two-byte payload: each returns the
  same 64 bytes and no error.
\<close>

theorem MarshalBinary_length_and_padding_witness:
  "Frame_MarshalBinary_r1 F1
     = (Some ([1,2,3,4,5,6, 7,8,9,10,11,12, 0x81,0x00, 0x20,0x02, 0x08,0x00, 0xaa,0xbb]
          @ replicate 44 0), None)
   \<and> Frame_MarshalBinary_r2 F1
     = (Some ([1,2,3,4,5,6, 7,8,9,10,11,12, 0x81,0x00, 0x20,0x02, 0x08,0x00, 0xaa,0xbb]
          @ replicate 44 0), None)
   \<and> (\<exists>b. fst (Frame_MarshalBinary_r1 F1) = Some b \<and> length b = 64
          \<and> subslice b 16 18 = [0x08, 0x00] \<and> subslice b 18 20 = [0xaa, 0xbb]
          \<and> drop 20 b = replicate 44 0)
   \<and> (\<exists>b. fst (Frame_MarshalBinary_r2 F1) = Some b \<and> length b = 64
          \<and> subslice b 16 18 = [0x08, 0x00] \<and> subslice b 18 20 = [0xaa, 0xbb]
          \<and> drop 20 b = replicate 44 0)"
proof -
  have e: "Frame_MarshalBinary_r1 F1
     = (Some ([1,2,3,4,5,6, 7,8,9,10,11,12, 0x81,0x00, 0x20,0x02, 0x08,0x00, 0xaa,0xbb]
          @ replicate 44 0), None)"
    "Frame_MarshalBinary_r2 F1
     = (Some ([1,2,3,4,5,6, 7,8,9,10,11,12, 0x81,0x00, 0x20,0x02, 0x08,0x00, 0xaa,0xbb]
          @ replicate 44 0), None)"
    by code_simp+
  have n: "snd (Frame_MarshalBinary_r1 F1) = None" "snd (Frame_MarshalBinary_r2 F1) = None"
    by (simp_all add: e)
  have f: "length (VLAN F1) = 1" "Payload F1 = [0xaa, 0xbb]" "PutUint16 (EtherType F1) = [0x08, 0x00]"
    by (simp_all add: F1_def PutUint16_def)
  from MarshalBinary_length_and_padding [of F1] n e f show ?thesis by simp
qed

section \<open>The frame check sequence\<close>

lemma VLAN_UnmarshalBinary_errors:
  "snd (VLAN_UnmarshalBinary v b) \<noteq> Some ErrInvalidFCS"
  by (simp add: VLAN_UnmarshalBinary_def Let_def)

lemma vlan_loop_not_FCS:
  "snd (vlan_loop need b vs et n) \<noteq> Failed ErrInvalidFCS"
proof (induction need b vs et n rule: vlan_loop.induct)
  case (1 need b vs et n)
  show ?case
    apply (subst vlan_loop.simps)
    using 1 VLAN_UnmarshalBinary_errors [of new_VLAN "subslice b n (n + 2)"]
    apply (auto split: prod.splits option.splits)
    done
qed

lemma Frame_UnmarshalBinary_r2_not_FCS:
  "snd (Frame_UnmarshalBinary_r2 f b) \<noteq> Failed ErrInvalidFCS"
  using vlan_loop_not_FCS [of 4 b "VLAN f" "Uint16 (subslice b 12 14)" 14]
  by (auto simp add: Frame_UnmarshalBinary_r2_def Let_def split: prod.splits ret.splits)

text \<open>
  C8. \<open>Frame.UnmarshalFCS\<close> fails with \<open>ErrUnexpectedEOF\<close> for every input shorter than
  4 bytes. For an input of at least 4 bytes it fails with \<open>ErrInvalidFCS\<close> exactly when
  the big-endian 32-bit trailer differs from the IEEE CRC32 of the bytes before it, and
  then the frame is returned untouched; when the checksum matches, the result (frame and
  error) is the one of \<open>Frame.UnmarshalBinary\<close> on the input without its trailer.
\<close>

theorem UnmarshalFCS_cases:
  "(length b < 4 \<longrightarrow> Frame_UnmarshalFCS f b = (f, Failed ErrUnexpectedEOF))
   \<and> (4 \<le> length b \<longrightarrow>
        (snd (Frame_UnmarshalFCS f b) = Failed ErrInvalidFCS)
          = (Uint32 (drop (length b - 4) b) \<noteq> ChecksumIEEE (take (length b - 4) b)))
   \<and> (4 \<le> length b \<and> Uint32 (drop (length b - 4) b) \<noteq> ChecksumIEEE (take (length b - 4) b)
        \<longrightarrow> Frame_UnmarshalFCS f b = (f, Failed ErrInvalidFCS))
   \<and> (4 \<le> length b \<and> Uint32 (drop (length b - 4) b) = ChecksumIEEE (take (length b - 4) b)
        \<longrightarrow> Frame_UnmarshalFCS f b = Frame_UnmarshalBinary_r2 f (take (length b - 4) b))"
  using Frame_UnmarshalBinary_r2_not_FCS [of f "take (length b - 4) b"]
  by (simp add: Frame_UnmarshalFCS_def subslice_def Let_def)

text \<open>The model of the checksum agrees with the standard check value of CRC-32 on the
  ASCII digits 1 to 9.\<close>

lemma crc_bit8_0: "(crc_bit ^^ 8) c = crc_bit (crc_bit (crc_bit (crc_bit (crc_bit (crc_bit (crc_bit (crc_bit c)))))))"
  by (simp add: numeral_eq_Suc)

lemma ChecksumIEEE_empty: "ChecksumIEEE [] = 0"
  by (simp add: ChecksumIEEE_def)

lemma ChecksumIEEE_check: "ChecksumIEEE [0x31,0x32,0x33,0x34,0x35,0x36,0x37,0x38,0x39] = 0xcbf43926"
  by (simp add: ChecksumIEEE_def crc_byte_def crc_bit8_0 crc_bit_def)

theorem UnmarshalFCS_cases_witness:
  "Frame_UnmarshalFCS new_Frame [1, 2, 3] = (new_Frame, Failed ErrUnexpectedEOF)
   \<and> Frame_UnmarshalFCS new_Frame [0, 0, 0, 1] = (new_Frame, Failed ErrInvalidFCS)
   \<and> Frame_UnmarshalFCS new_Frame [0, 0, 0, 0] = Frame_UnmarshalBinary_r2 new_Frame []"
  using UnmarshalFCS_cases [of "[1, 2, 3]" new_Frame]
        UnmarshalFCS_cases [of "[0, 0, 0, 1]" new_Frame]
        UnmarshalFCS_cases [of "[0, 0, 0, 0]" new_Frame]
  by (simp add: ChecksumIEEE_empty Uint32_def)

section \<open>The receiver of a decode\<close>

lemma vlan_loop_tags:
  "fst (fst (vlan_loop need b vs et n)) = vs @ fst (fst (vlan_loop need b [] et n))"
  by (subst vlan_loop_append) (simp split: prod.splits)

lemma vlan_loop_rest:
  "snd (fst (vlan_loop need b vs et n)) = snd (fst (vlan_loop need b [] et n))"
  "snd (vlan_loop need b vs et n) = snd (vlan_loop need b [] et n)"
  by (subst vlan_loop_append, simp split: prod.splits)+

lemma r1_VLAN:
  "14 \<le> length b \<Longrightarrow>
   VLAN (fst (Frame_UnmarshalBinary_r1 f b))
     = fst (fst (vlan_loop 2 b (VLAN f) (Uint16 (subslice b 12 14)) 14))"
  by (simp add: Frame_UnmarshalBinary_r1_def Let_def split: prod.splits ret.splits)

lemma r2_VLAN:
  "14 \<le> length b \<Longrightarrow>
   VLAN (fst (Frame_UnmarshalBinary_r2 f b))
     = fst (fst (vlan_loop 4 b (VLAN f) (Uint16 (subslice b 12 14)) 14))"
  by (simp add: Frame_UnmarshalBinary_r2_def Let_def split: prod.splits ret.splits)

lemma r3_VLAN:
  "14 \<le> length b \<Longrightarrow>
   VLAN (fst (Frame_UnmarshalBinary_r3 f b))
     = fst (fst (vlan_loop 4 b (VLAN f) (Uint16 (subslice b 12 14)) 14))"
  by (simp add: Frame_UnmarshalBinary_r3_def Let_def split: prod.splits ret.splits)

lemma short_buffer:
  "length b < 14 \<Longrightarrow> Frame_UnmarshalBinary_r1 f b = (f, Failed ErrUnexpectedEOF)"
  "length b < 14 \<Longrightarrow> Frame_UnmarshalBinary_r2 f b = (f, Failed ErrUnexpectedEOF)"
  "length b < 14 \<Longrightarrow> Frame_UnmarshalBinary_r3 f b = (f, Failed ErrUnexpectedEOF)"
  by (simp_all add: Frame_UnmarshalBinary_r1_def Frame_UnmarshalBinary_r2_def
      Frame_UnmarshalBinary_r3_def)

lemma r_VLAN_append:
  "VLAN (fst (Frame_UnmarshalBinary_r1 f b))
     = VLAN f @ VLAN (fst (Frame_UnmarshalBinary_r1 new_Frame b))"
  "VLAN (fst (Frame_UnmarshalBinary_r2 f b))
     = VLAN f @ VLAN (fst (Frame_UnmarshalBinary_r2 new_Frame b))"
  "VLAN (fst (Frame_UnmarshalBinary_r3 f b))
     = VLAN f @ VLAN (fst (Frame_UnmarshalBinary_r3 new_Frame b))"
proof -
  have n: "VLAN new_Frame = []" by (simp add: new_Frame_def)
  show "VLAN (fst (Frame_UnmarshalBinary_r1 f b))
     = VLAN f @ VLAN (fst (Frame_UnmarshalBinary_r1 new_Frame b))"
    using vlan_loop_tags [of 2 b "VLAN f"]
    by (cases "length b < 14") (simp_all add: short_buffer r1_VLAN n)
  show "VLAN (fst (Frame_UnmarshalBinary_r2 f b))
     = VLAN f @ VLAN (fst (Frame_UnmarshalBinary_r2 new_Frame b))"
    using vlan_loop_tags [of 4 b "VLAN f"]
    by (cases "length b < 14") (simp_all add: short_buffer r2_VLAN n)
  show "VLAN (fst (Frame_UnmarshalBinary_r3 f b))
     = VLAN f @ VLAN (fst (Frame_UnmarshalBinary_r3 new_Frame b))"
    using vlan_loop_tags [of 4 b "VLAN f"]
    by (cases "length b < 14") (simp_all add: short_buffer r3_VLAN n)
qed

lemma r23_ret:
  "snd (Frame_UnmarshalBinary_r2 f b) = snd (Frame_UnmarshalBinary_r2 new_Frame b)"
  "snd (Frame_UnmarshalBinary_r3 f b) = snd (Frame_UnmarshalBinary_r3 new_Frame b)"
proof -
  have n: "VLAN new_Frame = []" by (simp add: new_Frame_def)
  have r2: "\<And>g. snd (Frame_UnmarshalBinary_r2 g b) =
     (if length b < 14 then Failed ErrUnexpectedEOF
      else snd (vlan_loop 4 b (VLAN g) (Uint16 (subslice b 12 14)) 14))"
    by (simp add: Frame_UnmarshalBinary_r2_def Let_def split: prod.splits ret.splits)
  have r3: "\<And>g. snd (Frame_UnmarshalBinary_r3 g b) =
     (if length b < 14 then Failed ErrUnexpectedEOF
      else snd (vlan_loop 4 b (VLAN g) (Uint16 (subslice b 12 14)) 14))"
    by (simp add: Frame_UnmarshalBinary_r3_def Let_def split: prod.splits ret.splits)
  show "snd (Frame_UnmarshalBinary_r2 f b) = snd (Frame_UnmarshalBinary_r2 new_Frame b)"
    unfolding r2 n using vlan_loop_rest(2) [of 4 b "VLAN f"] by simp
  show "snd (Frame_UnmarshalBinary_r3 f b) = snd (Frame_UnmarshalBinary_r3 new_Frame b)"
    unfolding r3 n using vlan_loop_rest(2) [of 4 b "VLAN f"] by simp
qed

text \<open>
  C10. \<open>Frame.UnmarshalBinary\<close> appends to the receiver's \<open>VLAN\<close> slice without
  clearing it: after a successful decode into a frame that already holds \<open>k\<close> tags, the
  chain is those \<open>k\<close> tags followed by the tags of the buffer, which are the chain that
  the same buffer leaves in the zero frame. In the two listings without a minimum payload
  the decode into the zero frame succeeds as well.
\<close>

theorem UnmarshalBinary_appends_tags:
  "(snd (Frame_UnmarshalBinary_r1 f b) = OK \<longrightarrow>
      VLAN (fst (Frame_UnmarshalBinary_r1 f b))
        = VLAN f @ VLAN (fst (Frame_UnmarshalBinary_r1 new_Frame b)))
   \<and> (snd (Frame_UnmarshalBinary_r2 f b) = OK \<longrightarrow>
      snd (Frame_UnmarshalBinary_r2 new_Frame b) = OK
      \<and> VLAN (fst (Frame_UnmarshalBinary_r2 f b))
          = VLAN f @ VLAN (fst (Frame_UnmarshalBinary_r2 new_Frame b)))
   \<and> (snd (Frame_UnmarshalBinary_r3 f b) = OK \<longrightarrow>
      snd (Frame_UnmarshalBinary_r3 new_Frame b) = OK
      \<and> VLAN (fst (Frame_UnmarshalBinary_r3 f b))
          = VLAN f @ VLAN (fst (Frame_UnmarshalBinary_r3 new_Frame b)))"
  using r_VLAN_append [of f b] r23_ret [of f b] by simp

text \<open>
  A buffer with one tag decoded into a frame that holds one stale tag.
\<close>

theorem UnmarshalBinary_appends_tags_witness:
  "VLAN (fst (Frame_UnmarshalBinary_r1 stale B1))
     = [\<lparr>Priority = 0, DropEligible = False, ID = 9\<rparr>,
        \<lparr>Priority = 1, DropEligible = False, ID = 2\<rparr>]
   \<and> VLAN (fst (Frame_UnmarshalBinary_r2 stale B1))
     = [\<lparr>Priority = 0, DropEligible = False, ID = 9\<rparr>,
        \<lparr>Priority = 1, DropEligible = False, ID = 2\<rparr>]
   \<and> VLAN (fst (Frame_UnmarshalBinary_r3 stale B1))
     = [\<lparr>Priority = 0, DropEligible = False, ID = 9\<rparr>,
        \<lparr>Priority = 1, DropEligible = False, ID = 2\<rparr>]"
proof -
  have ok: "snd (Frame_UnmarshalBinary_r1 stale B1) = OK"
    "snd (Frame_UnmarshalBinary_r2 stale B1) = OK"
    "snd (Frame_UnmarshalBinary_r3 stale B1) = OK"
    by code_simp+
  have fresh: "VLAN (fst (Frame_UnmarshalBinary_r1 new_Frame B1))
                 = [\<lparr>Priority = 1, DropEligible = False, ID = 2\<rparr>]"
    "VLAN (fst (Frame_UnmarshalBinary_r2 new_Frame B1))
                 = [\<lparr>Priority = 1, DropEligible = False, ID = 2\<rparr>]"
    "VLAN (fst (Frame_UnmarshalBinary_r3 new_Frame B1))
                 = [\<lparr>Priority = 1, DropEligible = False, ID = 2\<rparr>]"
    by code_simp+
  have st: "VLAN stale = [\<lparr>Priority = 0, DropEligible = False, ID = 9\<rparr>]"
    by (simp add: stale_def)
  from UnmarshalBinary_appends_tags [of stale B1] ok fresh st show ?thesis by simp
qed

lemma vlan_loop_prefix: "\<exists>ts. fst (fst (vlan_loop need b vs et n)) = vs @ ts"
  using vlan_loop_tags [of need b vs et n] by blast








section \<open>Decoding an encoded frame\<close>

lemma r2_assemble:
  assumes "length D = 6" "length S = 6"
  shows "(let bb = replicate (6 + 6 + length pay) 0;
              bb = copy_at bb 0 6 D;
              f = f\<lparr>Destination := subslice bb 0 6\<rparr>;
              bb = copy_at bb 6 12 S;
              f = f\<lparr>Source := subslice bb 6 12\<rparr>;
              bb = copy_at bb 12 (length bb) pay
          in (f\<lparr>Payload := drop 12 bb\<rparr>, OK))
         = (f\<lparr>Destination := D, Source := S, Payload := pay\<rparr>, OK)"
proof -
  define m where "m = length pay"
  have s1: "copy_at (replicate (6 + 6 + m) 0) 0 6 D = D @ replicate (6 + m) 0"
    using copy_at_fits [of "[]" 0 D 6 "replicate (6 + 6 + m) 0"] assms by simp
  have d1: "subslice (D @ replicate (6 + m) 0) 0 6 = D"
    using assms by (simp add: subslice_def)
  have s2: "copy_at (D @ replicate (6 + m) 0) 6 12 S = (D @ S) @ replicate m 0"
    using copy_at_fits [of D 6 S 12 "replicate (6 + m) 0"] assms by simp
  have d2: "subslice ((D @ S) @ replicate m 0) 6 12 = S"
    using assms by (simp add: subslice_def)
  have s3: "copy_at ((D @ S) @ replicate m 0) 12 (length ((D @ S) @ replicate m 0)) pay
              = (D @ S) @ pay"
    using copy_at_fits [of "D @ S" 12 pay "length ((D @ S) @ replicate m 0)" "replicate m 0"] assms
    by (simp add: m_def)
  have d3: "drop 12 ((D @ S) @ pay) = pay" using assms by simp
  show ?thesis
    unfolding Let_def m_def [symmetric] s1 d1 s2 d2 s3 d3 by simp
qed

lemma decode_wire:
  assumes valid: "\<forall>v \<in> set (VLAN F). ID v \<le> 0xffe \<and> Priority v \<le> 7"
    and et: "EtherType F \<noteq> EtherTypeVLAN"
  defines "R \<equiv> \<lambda>g. (g\<lparr>Destination := pad6 (Destination F), Source := pad6 (Source F),
                       VLAN := VLAN g @ VLAN F, EtherType := EtherType F,
                       Payload := Payload F @ replicate (46 - length (Payload F)) 0\<rparr>, OK)"
  shows "Frame_UnmarshalBinary_r1 g (wire F) = R g"
    and "Frame_UnmarshalBinary_r2 g (wire F) = R g"
    and "Frame_UnmarshalBinary_r3 g (wire F) = R g"
proof -
  define D where "D = pad6 (Destination F)"
  define S where "S = pad6 (Source F)"
  define C where "C = PutUint16 (cand (VLAN F) (EtherType F))"
  define A where "A = after_cursor (VLAN F) (EtherType F)"
  define pay where "pay = Payload F @ replicate (46 - length (Payload F)) 0"
  define b where "b = wire F"
  define k where "k = length (VLAN F)"
  have lens: "length D = 6" "length S = 6" "length C = 2" "length A = 4 * k"
    by (simp_all add: D_def S_def C_def A_def k_def)
  have lp: "46 \<le> length pay" by (simp add: pay_def)
  have b1: "b = (D @ S @ C) @ A @ pay"
    using chain_split [of "VLAN F" "EtherType F"]
    by (simp add: b_def wire_def D_def S_def C_def A_def pay_def)
  have lb: "\<not> length b < 14" by (simp add: b1 lens)
  have sD: "subslice b 0 6 = D" by (simp add: b1 subslice_def lens)
  have sS: "subslice b 6 12 = S" by (simp add: b1 subslice_def lens)
  have sC: "Uint16 (subslice b 12 14) = cand (VLAN F) (EtherType F)"
    using Uint16_PutUint16 [of "cand (VLAN F) (EtherType F)"]
    by (simp add: b1 subslice_def lens C_def [symmetric])
  have loop: "\<And>need acc. need \<le> 4 \<Longrightarrow>
      vlan_loop need b acc (cand (VLAN F) (EtherType F)) 14
        = ((acc @ VLAN F, EtherType F, 14 + 4 * k), OK)"
    unfolding b1 A_def k_def
    using valid et by (intro vlan_loop_chain) (simp_all add: lens)
  have dp: "drop (14 + 4 * k) b = pay" by (simp add: b1 lens)
  have chk: "\<And>vl :: int. 0 \<le> vl \<Longrightarrow> \<not> int (length pay) < int minPayload - vl * 4"
    using lp by (simp add: minPayload_def)
  have l4: "int minPayload - int (length pay) \<noteq> 4"
    using lp by (simp add: minPayload_def)
  show "Frame_UnmarshalBinary_r1 g (wire F) = R g"
    unfolding b_def [symmetric] Frame_UnmarshalBinary_r1_def
    using chk [of 0] chk [of 1] chk [of "int (length (VLAN g @ VLAN F))"] l4 lp
    by (simp add: lb sD sS sC loop dp Let_def R_def D_def S_def pay_def)
  show "Frame_UnmarshalBinary_r3 g (wire F) = R g"
    unfolding b_def [symmetric] Frame_UnmarshalBinary_r3_def
    by (simp add: lb sD sS sC loop dp Let_def R_def D_def S_def pay_def)
  have asm: "\<And>f. (let bb = replicate (6 + 6 + length pay) 0;
              bb = copy_at bb 0 6 D;
              f = f\<lparr>Destination := subslice bb 0 6\<rparr>;
              bb = copy_at bb 6 12 S;
              f = f\<lparr>Source := subslice bb 6 12\<rparr>;
              bb = copy_at bb 12 (length bb) pay
          in (f\<lparr>Payload := drop 12 bb\<rparr>, OK))
         = (f\<lparr>Destination := D, Source := S, Payload := pay\<rparr>, OK)"
    by (rule r2_assemble) (simp_all add: lens)
  show "Frame_UnmarshalBinary_r2 g (wire F) = R g"
    unfolding b_def [symmetric] Frame_UnmarshalBinary_r2_def
    by (simp only: lb if_False sC loop [of 4, simplified] prod.case ret.case sD sS dp Let_def
          asm [unfolded Let_def])
       (simp add: R_def D_def S_def pay_def)
qed


text \<open>
  C1, amended. For every frame whose two addresses are exactly 6 bytes long, whose tags
  all have an ID in [0, 4094] and a priority in [0, 7], and whose EtherType is not the
  marker \<open>0x8100\<close>, \<open>Frame.MarshalBinary\<close> succeeds, and \<open>Frame.UnmarshalBinary\<close> of
  its output into a frame with an empty tag chain succeeds and yields the original frame
  with the payload padded with zero bytes to 46 bytes when it was shorter.
\<close>

theorem roundtrip:
  assumes "length (Destination f) = 6" "length (Source f) = 6"
    and "\<forall>v \<in> set (VLAN f). ID v \<le> 0xffe \<and> Priority v \<le> 7"
    and "EtherType f \<noteq> 0x8100"
    and "VLAN g = []"
  shows "\<exists>b. Frame_MarshalBinary_r1 f = (Some b, None)
           \<and> Frame_MarshalBinary_r2 f = (Some b, None)
           \<and> Frame_UnmarshalBinary_r1 g b
                = (f\<lparr>Payload := Payload f @ replicate (46 - length (Payload f)) 0\<rparr>, OK)
           \<and> Frame_UnmarshalBinary_r2 g b
                = (f\<lparr>Payload := Payload f @ replicate (46 - length (Payload f)) 0\<rparr>, OK)
           \<and> Frame_UnmarshalBinary_r3 g b
                = (f\<lparr>Payload := Payload f @ replicate (46 - length (Payload f)) 0\<rparr>, OK)"
proof -
  have ids: "\<forall>v \<in> set (VLAN f). ID v \<le> 0xffe" using assms(3) by blast
  have et: "EtherType f \<noteq> EtherTypeVLAN" using assms(4) by (simp add: EtherTypeVLAN_def)
  have p: "pad6 (Destination f) = Destination f" "pad6 (Source f) = Source f"
    using assms(1,2) by (simp_all add: pad6_def)
  have eq: "g\<lparr>Destination := Destination f, Source := Source f, VLAN := VLAN g @ VLAN f,
              EtherType := EtherType f,
              Payload := Payload f @ replicate (46 - length (Payload f)) 0\<rparr>
            = f\<lparr>Payload := Payload f @ replicate (46 - length (Payload f)) 0\<rparr>"
    using assms(5) by (cases f, cases g) simp
  show ?thesis
    using decode_wire [OF assms(3) et, of g] eq
    by (intro exI [of _ "wire f"])
       (simp add: Frame_MarshalBinary_r1_ok [OF ids] Frame_MarshalBinary_r2_ok [OF ids] p)
qed

text \<open>
  The round trip at a frame with one tag and a two-byte payload.
\<close>

theorem roundtrip_witness:
  "\<exists>b. Frame_MarshalBinary_r1 F1 = (Some b, None)
      \<and> Frame_MarshalBinary_r2 F1 = (Some b, None)
      \<and> Frame_UnmarshalBinary_r1 new_Frame b = (F1\<lparr>Payload := [0xaa, 0xbb] @ replicate 44 0\<rparr>, OK)
      \<and> Frame_UnmarshalBinary_r2 new_Frame b = (F1\<lparr>Payload := [0xaa, 0xbb] @ replicate 44 0\<rparr>, OK)
      \<and> Frame_UnmarshalBinary_r3 new_Frame b = (F1\<lparr>Payload := [0xaa, 0xbb] @ replicate 44 0\<rparr>, OK)"
  using roundtrip [of F1 new_Frame] by (simp add: F1_def new_Frame_def)

text \<open>
  C1 as stated fails for a frame without tags whose EtherType is \<open>0x8100\<close>: the decoder
  takes the EtherType for a tag marker and the first payload bytes for a tag, and returns
  a frame with one tag, EtherType 0 and a 42-byte payload.
\<close>

theorem roundtrip_marker_EtherType_counterexample:
  "Frame_MarshalBinary_r1 F0
     = (Some ([1,2,3,4,5,6, 7,8,9,10,11,12, 0x81,0x00] @ replicate 46 0), None)
   \<and> Frame_UnmarshalBinary_r1 new_Frame ([1,2,3,4,5,6, 7,8,9,10,11,12, 0x81,0x00] @ replicate 46 0)
     = (\<lparr>Destination = [1,2,3,4,5,6], Source = [7,8,9,10,11,12],
         VLAN = [\<lparr>Priority = 0, DropEligible = False, ID = 0\<rparr>], EtherType = 0,
         Payload = replicate 42 0\<rparr>, OK)"
  by code_simp

lemma vlan_loop_no_marker:
  "et \<noteq> EtherTypeVLAN \<Longrightarrow> vlan_loop need b vs et n = ((vs, et, n), OK)"
  by (simp add: vlan_loop.simps)

lemma vlan_loop_guard4:
  "n \<le> length b \<Longrightarrow> length b - n < 4 \<Longrightarrow>
   vlan_loop 4 b vs EtherTypeVLAN n = ((vs, EtherTypeVLAN, n), Failed ErrUnexpectedEOF)"
  by (simp add: vlan_loop.simps)

lemma UnmarshalBinary_r2_r3_no_panic:
  "snd (Frame_UnmarshalBinary_r2 f b) \<noteq> Panic" "snd (Frame_UnmarshalBinary_r3 f b) \<noteq> Panic"
proof -
  have "14 \<le> length b \<Longrightarrow> snd (vlan_loop 4 b (VLAN f) (Uint16 (subslice b 12 14)) 14) \<noteq> Panic"
    by (rule vlan_loop_no_panic)
  thus "snd (Frame_UnmarshalBinary_r2 f b) \<noteq> Panic" "snd (Frame_UnmarshalBinary_r3 f b) \<noteq> Panic"
    by (cases "length b < 14";
        auto simp add: Frame_UnmarshalBinary_r2_def Frame_UnmarshalBinary_r3_def Let_def
          split: prod.splits ret.splits)+
qed

lemma no_marker_r1:
  assumes "14 \<le> length b" "Uint16 (subslice b 12 14) \<noteq> EtherTypeVLAN"
  shows "VLAN (fst (Frame_UnmarshalBinary_r1 f b)) = VLAN f"
    and "length b - 14 = 42 \<Longrightarrow> snd (Frame_UnmarshalBinary_r1 f b) = OK"
    and "length b - 14 < 42 \<Longrightarrow> snd (Frame_UnmarshalBinary_r1 f b) = Failed ErrUnexpectedEOF"
  using assms
  by (auto simp add: Frame_UnmarshalBinary_r1_def vlan_loop_no_marker Let_def minPayload_def)

lemma no_marker_r2:
  assumes "14 \<le> length b" "Uint16 (subslice b 12 14) \<noteq> EtherTypeVLAN"
  shows "Frame_UnmarshalBinary_r2 f b
           = (f\<lparr>EtherType := Uint16 (subslice b 12 14), Destination := subslice b 0 6,
                Source := subslice b 6 12, Payload := drop 14 b\<rparr>, OK)"
proof -
  have l: "\<not> length b < 14" "length (subslice b 0 6) = 6" "length (subslice b 6 12) = 6"
    using assms(1) by (simp_all add: subslice_def)
  have asm: "\<And>g. (let bb = replicate (6 + 6 + length (drop 14 b)) 0;
              bb = copy_at bb 0 6 (subslice b 0 6);
              g = g\<lparr>Destination := subslice bb 0 6\<rparr>;
              bb = copy_at bb 6 12 (subslice b 6 12);
              g = g\<lparr>Source := subslice bb 6 12\<rparr>;
              bb = copy_at bb 12 (length bb) (drop 14 b)
          in (g\<lparr>Payload := drop 12 bb\<rparr>, OK))
         = (g\<lparr>Destination := subslice b 0 6, Source := subslice b 6 12,
               Payload := drop 14 b\<rparr>, OK)"
    by (rule r2_assemble) (simp_all add: l)
  show ?thesis
    unfolding Frame_UnmarshalBinary_r2_def
    by (simp only: l if_False vlan_loop_no_marker [OF assms(2)] prod.case ret.case Let_def
          asm [unfolded Let_def])
       (cases f, simp)
qed

lemma no_marker_r3:
  assumes "14 \<le> length b" "Uint16 (subslice b 12 14) \<noteq> EtherTypeVLAN"
  shows "Frame_UnmarshalBinary_r3 f b
           = (f\<lparr>EtherType := Uint16 (subslice b 12 14), Destination := subslice b 0 6,
                Source := subslice b 6 12, Payload := drop 14 b\<rparr>, OK)"
  using assms
  by (cases f) (simp add: Frame_UnmarshalBinary_r3_def vlan_loop_no_marker Let_def)

text \<open>
  C2, amended. For every buffer whose EtherType field is not the marker (it decodes with
  no tag): with exactly 42 payload bytes every listing of \<open>Frame.UnmarshalBinary\<close>
  succeeds; with exactly 41 payload bytes the listing with the minimum payload check
  (ethernet.go 120-195) fails with \<open>ErrUnexpectedEOF\<close>, while the listings without it
  (ethernet.go 326-374 and the unnamed one) succeed; the tag chain of the receiver is
  left as it was.
\<close>

theorem stripped_tag_heuristic:
  assumes "14 \<le> length b" "Uint16 (subslice b 12 14) \<noteq> EtherTypeVLAN"
  shows "(length b - 14 = 42 \<longrightarrow>
            snd (Frame_UnmarshalBinary_r1 f b) = OK
            \<and> snd (Frame_UnmarshalBinary_r2 f b) = OK
            \<and> snd (Frame_UnmarshalBinary_r3 f b) = OK)
       \<and> (length b - 14 = 41 \<longrightarrow>
            snd (Frame_UnmarshalBinary_r1 f b) = Failed ErrUnexpectedEOF
            \<and> snd (Frame_UnmarshalBinary_r2 f b) = OK
            \<and> snd (Frame_UnmarshalBinary_r3 f b) = OK)
       \<and> VLAN (fst (Frame_UnmarshalBinary_r1 f b)) = VLAN f
       \<and> VLAN (fst (Frame_UnmarshalBinary_r2 f b)) = VLAN f
       \<and> VLAN (fst (Frame_UnmarshalBinary_r3 f b)) = VLAN f"
  using no_marker_r1 [OF assms, of f] no_marker_r2 [OF assms, of f] no_marker_r3 [OF assms, of f]
  by simp

text \<open>
  The amended C2 at buffers of 12 zero bytes, the EtherType \<open>0x0800\<close> and 42 or 41 zero
  bytes.
\<close>

theorem stripped_tag_heuristic_witness:
  "snd (Frame_UnmarshalBinary_r1 new_Frame (replicate 12 0 @ [0x08, 0x00] @ replicate 42 0)) = OK
   \<and> snd (Frame_UnmarshalBinary_r1 new_Frame (replicate 12 0 @ [0x08, 0x00] @ replicate 41 0))
       = Failed ErrUnexpectedEOF
   \<and> snd (Frame_UnmarshalBinary_r2 new_Frame (replicate 12 0 @ [0x08, 0x00] @ replicate 41 0)) = OK
   \<and> VLAN (fst (Frame_UnmarshalBinary_r1 new_Frame (replicate 12 0 @ [0x08, 0x00] @ replicate 42 0)))
       = []"
proof -
  have e: "Uint16 (subslice (replicate 12 0 @ [0x08, 0x00] @ replicate 42 0) 12 14) \<noteq> EtherTypeVLAN"
    "Uint16 (subslice (replicate 12 0 @ [0x08, 0x00] @ replicate 41 0) 12 14) \<noteq> EtherTypeVLAN"
    by (simp_all add: subslice_def Uint16_def EtherTypeVLAN_def)
  from stripped_tag_heuristic [of "replicate 12 0 @ [0x08, 0x00] @ replicate 42 0" new_Frame]
       stripped_tag_heuristic [of "replicate 12 0 @ [0x08, 0x00] @ replicate 41 0" new_Frame] e
  show ?thesis by (simp add: new_Frame_def)
qed

text \<open>
  C2 as stated fails on ethernet.go 326-374: a buffer with 41 payload bytes decodes.
\<close>

theorem no_minimum_payload_counterexample:
  "Frame_UnmarshalBinary_r2 new_Frame (replicate 12 0 @ [0x08, 0x00] @ replicate 41 0)
     = (\<lparr>Destination = replicate 6 0, Source = replicate 6 0, VLAN = [], EtherType = 0x0800,
         Payload = replicate 41 0\<rparr>, OK)"
  by code_simp

text \<open>
  C3, amended. Every listing of \<open>Frame.UnmarshalBinary\<close> fails with \<open>ErrUnexpectedEOF\<close>
  on a buffer shorter than 14 bytes and leaves the frame untouched. On a buffer of exactly
  14 bytes whose EtherType field is not the marker, the listings without a minimum payload
  (ethernet.go 326-374 and the unnamed one) succeed with an empty payload, and the listing
  with the minimum payload check (ethernet.go 120-195) fails with \<open>ErrUnexpectedEOF\<close>.
\<close>

theorem truncation:
  "(length b < 14 \<longrightarrow>
      Frame_UnmarshalBinary_r1 f b = (f, Failed ErrUnexpectedEOF)
      \<and> Frame_UnmarshalBinary_r2 f b = (f, Failed ErrUnexpectedEOF)
      \<and> Frame_UnmarshalBinary_r3 f b = (f, Failed ErrUnexpectedEOF))
   \<and> (length b = 14 \<and> Uint16 (subslice b 12 14) \<noteq> EtherTypeVLAN \<longrightarrow>
      Frame_UnmarshalBinary_r2 f b
        = (f\<lparr>EtherType := Uint16 (subslice b 12 14), Destination := subslice b 0 6,
             Source := subslice b 6 12, Payload := []\<rparr>, OK)
      \<and> Frame_UnmarshalBinary_r3 f b
        = (f\<lparr>EtherType := Uint16 (subslice b 12 14), Destination := subslice b 0 6,
             Source := subslice b 6 12, Payload := []\<rparr>, OK)
      \<and> snd (Frame_UnmarshalBinary_r1 f b) = Failed ErrUnexpectedEOF)"
  using short_buffer [of b f] no_marker_r1(3) [of b f] no_marker_r2 [of b f] no_marker_r3 [of b f]
  by simp

text \<open>
  The amended C3 at a three-byte buffer and at a 14-byte buffer with EtherType \<open>0x0800\<close>.
\<close>

theorem truncation_witness:
  "Frame_UnmarshalBinary_r2 new_Frame [1, 2, 3] = (new_Frame, Failed ErrUnexpectedEOF)
   \<and> Frame_UnmarshalBinary_r2 new_Frame [1,2,3,4,5,6, 7,8,9,10,11,12, 0x08,0x00]
       = (\<lparr>Destination = [1,2,3,4,5,6], Source = [7,8,9,10,11,12], VLAN = [],
           EtherType = 0x0800, Payload = []\<rparr>, OK)
   \<and> snd (Frame_UnmarshalBinary_r1 new_Frame [1,2,3,4,5,6, 7,8,9,10,11,12, 0x08,0x00])
       = Failed ErrUnexpectedEOF"
  using truncation [of "[1, 2, 3]" new_Frame]
        truncation [of "[1,2,3,4,5,6, 7,8,9,10,11,12, 0x08,0x00]" new_Frame]
  by (simp add: subslice_def Uint16_def EtherTypeVLAN_def new_Frame_def)

text \<open>
  C3 as stated fails on ethernet.go 120-195: the 14-byte buffer is 46 bytes short of the
  minimum payload and is rejected.
\<close>

theorem minimum_payload_rejects_14_bytes_counterexample:
  "Frame_UnmarshalBinary_r1 new_Frame [1,2,3,4,5,6, 7,8,9,10,11,12, 0x08,0x00]
     = (\<lparr>Destination = [1,2,3,4,5,6], Source = [7,8,9,10,11,12], VLAN = [],
         EtherType = 0x0800, Payload = []\<rparr>, Failed ErrUnexpectedEOF)"
  by code_simp

text \<open>
  C4. In ethernet.go 140-157 the loop asks for 2 remaining bytes only: on a 16-byte buffer
  whose EtherType field is the marker, the tag is decoded and the slice expression
  \<open>b[n+2 : n+4]\<close> then reaches past the end of the buffer. The other two listings ask
  for 4 bytes and return \<open>ErrUnexpectedEOF\<close> on the same input; they never panic
  (\<open>UnmarshalBinary_r2_r3_no_panic\<close>, \<open>vlan_loop_guard4\<close>).
\<close>

theorem UnmarshalBinary_r1_short_tag_panics:
  "Frame_UnmarshalBinary_r1 new_Frame [1,2,3,4,5,6, 7,8,9,10,11,12, 0x81,0x00, 0x00,0x01]
     = (\<lparr>Destination = [1,2,3,4,5,6], Source = [7,8,9,10,11,12],
         VLAN = [\<lparr>Priority = 0, DropEligible = False, ID = 1\<rparr>], EtherType = 0,
         Payload = []\<rparr>, Panic)
   \<and> snd (Frame_UnmarshalBinary_r2 new_Frame [1,2,3,4,5,6, 7,8,9,10,11,12, 0x81,0x00, 0x00,0x01])
       = Failed ErrUnexpectedEOF
   \<and> snd (Frame_UnmarshalBinary_r3 new_Frame [1,2,3,4,5,6, 7,8,9,10,11,12, 0x81,0x00, 0x00,0x01])
       = Failed ErrUnexpectedEOF"
  by code_simp


end
